theory Spec2Isabelle
  imports Complex_Main "HOL-Library.Sublist"
begin

section \<open>Python values and the operations the module applies to them\<close>

text \<open>
  The module \<^verbatim>\<open>hmalib/common/messages/submit.py\<close> works on raw payloads: dictionaries
  obtained by decoding the JSON body of a queue message. A value is therefore \<^verbatim>\<open>None\<close>, a
  boolean, an integer, a float, a string, a list or a string-keyed dictionary; the one
  other kind of value the module handles is a content type class (the \<^verbatim>\<open>content_type\<close>
  field of a message), kept abstract as the type parameter \<open>'c\<close>.

  \<^item> A Python \<^verbatim>\<open>str\<close> is represented by its UTF-8 encoding, one \<open>char\<close> per byte.
  \<^item> A float is represented by the rational it denotes (NaN and the infinities are left
    out); the module only ever compares one with \<^verbatim>\<open>0\<close>.
  \<^item> A dictionary is an association list read with \<open>map_of\<close>: the first binding of a key
    is the one that counts.
\<close>

datatype 'c pyval =
    PNone
  | PBool bool
  | PInt int
  | PFloat rat
  | PStr string
  | PList "'c pyval list"
  | PDict "(string \<times> 'c pyval) list"
  | PType 'c

type_synonym 'c pydict = "(string \<times> 'c pyval) list"

text \<open>
  The exceptions the module can raise. The first four are Python's own;
  \<open>NamingConventionViolation\<close> is the name section 7 of the specification gives to a
  failure of the content-id derivation.
\<close>

datatype py_error = KeyError | TypeError | IndexError | AttributeError | NamingConventionViolation

text \<open>\<^verbatim>\<open>k in d\<close> and \<^verbatim>\<open>d[k]\<close> for a dictionary \<open>d\<close> and a string key \<open>k\<close>.\<close>

definition key_in :: "string \<Rightarrow> 'c pydict \<Rightarrow> bool" where
  "key_in k d = (map_of d k \<noteq> None)"

definition dict_get :: "'c pydict \<Rightarrow> string \<Rightarrow> py_error + 'c pyval" where
  "dict_get d k = (case map_of d k of None \<Rightarrow> Inl KeyError | Some v \<Rightarrow> Inr v)"

text \<open>
  \<^verbatim>\<open>v[k]\<close> for any value \<open>v\<close> and a string \<open>k\<close>: a dictionary is looked up, a list or a string
  refuses a string index, and nothing else can be subscripted.
\<close>

fun getitem :: "'c pyval \<Rightarrow> string \<Rightarrow> py_error + 'c pyval" where
  "getitem (PDict d) k = dict_get d k"
| "getitem _ k = Inl TypeError"

text \<open>The chained subscription \<^verbatim>\<open>v[k1][k2]...[kn]\<close>, evaluated left to right.\<close>

fun subscripts :: "'c pyval \<Rightarrow> string list \<Rightarrow> py_error + 'c pyval" where
  "subscripts v [] = Inr v"
| "subscripts v (k # ks) =
     (case getitem v k of Inl e \<Rightarrow> Inl e | Inr w \<Rightarrow> subscripts w ks)"

text \<open>
  Code points of a UTF-8 encoded string: a byte in \<open>0x80..0xBF\<close> continues the code point
  that the byte before it started.
\<close>

definition is_cont :: "char \<Rightarrow> bool" where
  "is_cont c = (0x80 \<le> (of_char c :: nat) \<and> (of_char c :: nat) < 0xC0)"

definition first_char :: "string \<Rightarrow> string" where
  "first_char s = (case s of [] \<Rightarrow> [] | c # cs \<Rightarrow> c # takeWhile is_cont cs)"

function py_chars :: "string \<Rightarrow> string list" where
  "py_chars [] = []"
| "py_chars (c # cs) = (c # takeWhile is_cont cs) # py_chars (dropWhile is_cont cs)"
  by pat_completeness auto
termination
  by (relation "measure length") (auto simp: less_Suc_eq_le length_dropWhile_le)

text \<open>\<^verbatim>\<open>len(v)\<close>: lists, strings and dictionaries are sized, nothing else is.\<close>

fun py_len :: "'c pyval \<Rightarrow> py_error + nat" where
  "py_len (PList xs) = Inr (length xs)"
| "py_len (PStr s) = Inr (length (filter (\<lambda>c. \<not> is_cont c) s))"
| "py_len (PDict d) = Inr (length (remdups (map fst d)))"
| "py_len _ = Inl TypeError"

text \<open>
  \<^verbatim>\<open>v[0]\<close>: the first element of a list, the first character of a string (both raise
  \<^verbatim>\<open>IndexError\<close> when empty); a dictionary is looked up at the key \<^verbatim>\<open>0\<close>, which a
  string-keyed dictionary never has.
\<close>

fun getitem0 :: "'c pyval \<Rightarrow> py_error + 'c pyval" where
  "getitem0 (PList xs) = (case xs of [] \<Rightarrow> Inl IndexError | x # _ \<Rightarrow> Inr x)"
| "getitem0 (PStr s) = (case s of [] \<Rightarrow> Inl IndexError | _ # _ \<Rightarrow> Inr (PStr (first_char s)))"
| "getitem0 (PDict d) = Inl KeyError"
| "getitem0 _ = Inl TypeError"

text \<open>
  \<^verbatim>\<open>k in v\<close> for a string \<open>k\<close>: key membership in a dictionary, element membership in a
  list (only the string \<open>k\<close> itself equals \<open>k\<close>), substring test in a string;
  \<^verbatim>\<open>TypeError\<close> for a value that is not a container.
\<close>

fun str_in :: "string \<Rightarrow> 'c pyval \<Rightarrow> py_error + bool" where
  "str_in k (PDict d) = Inr (key_in k d)"
| "str_in k (PList xs) = Inr (PStr k \<in> set xs)"
| "str_in k (PStr s) = Inr (sublist k s)"
| "str_in k _ = Inl TypeError"

text \<open>
  \<^verbatim>\<open>for x in v\<close>: the elements of a list, the keys of a dictionary, the characters of a
  string; \<^verbatim>\<open>TypeError\<close> for anything else.
\<close>

fun py_iter :: "'c pyval \<Rightarrow> py_error + 'c pyval list" where
  "py_iter (PList xs) = Inr xs"
| "py_iter (PDict d) = Inr (map PStr (remdups (map fst d)))"
| "py_iter (PStr s) = Inr (map PStr (py_chars s))"
| "py_iter _ = Inl TypeError"

text \<open>\<^verbatim>\<open>v == 0\<close>: true of the integer and the float zero and of \<^verbatim>\<open>False\<close>.\<close>

fun eq_zero :: "'c pyval \<Rightarrow> bool" where
  "eq_zero (PInt n) = (n = 0)"
| "eq_zero (PBool b) = (\<not> b)"
| "eq_zero (PFloat q) = (q = 0)"
| "eq_zero _ = False"

section \<open>\<^verbatim>\<open>urllib.parse.unquote_plus\<close>\<close>

text \<open>
  \<^verbatim>\<open>unquote_to_bytes\<close>: every \<^verbatim>\<open>%\<close> followed by two hexadecimal digits becomes the byte
  they denote; a \<^verbatim>\<open>%\<close> followed by anything else stays. (The library splits at \<^verbatim>\<open>%\<close>
  and looks the first two characters of each piece up in a table of the 22 * 22 digit
  pairs, which reads the same bytes.)
\<close>

definition is_hex :: "char \<Rightarrow> bool" where
  "is_hex c = (c \<in> set ''0123456789ABCDEFabcdef'')"

definition hex_val :: "char \<Rightarrow> nat" where
  "hex_val c =
     (let n = of_char c in
      if n < 0x3A then n - 0x30 else if n < 0x47 then n - 0x37 else n - 0x57)"

fun unquote_to_bytes :: "string \<Rightarrow> string" where
  "unquote_to_bytes (c # h # l # rest) =
     (if c = CHR ''%'' \<and> is_hex h \<and> is_hex l
      then char_of (16 * hex_val h + hex_val l) # unquote_to_bytes rest
      else c # unquote_to_bytes (h # l # rest))"
| "unquote_to_bytes cs = cs"

text \<open>
  \<^verbatim>\<open>bytes.decode('utf-8', 'replace')\<close>, with the result written in UTF-8 again: a
  well-formed sequence is kept, an ill-formed one is replaced by U+FFFD. The decoder
  replaces a byte that cannot start a sequence, the bytes of a sequence read so far when
  the next byte cannot continue it (decoding resumes at that byte), and everything
  that is left when the input ends inside a sequence.
\<close>

definition replacement :: string where
  "replacement = [CHR 0xEF, CHR 0xBF, CHR 0xBD]"

text \<open>
  Whether \<open>c2\<close> may follow the lead byte \<open>b\<close> of a three- or four-byte sequence:
  a continuation byte that gives neither an overlong form (after \<open>0xE0\<close>, \<open>0xF0\<close>), nor a
  surrogate (after \<open>0xED\<close>), nor a code point beyond U+10FFFF (after \<open>0xF4\<close>).
\<close>

definition second_ok :: "nat \<Rightarrow> char \<Rightarrow> bool" where
  "second_ok b c2 =
     (is_cont c2 \<and>
      (if b < 0xF0
       then \<not> (if (of_char c2 :: nat) < 0xA0 then b = 0xE0 else b = 0xED)
       else \<not> (if (of_char c2 :: nat) < 0x90 then b = 0xF0 else b = 0xF4)))"

fun utf8_replace :: "string \<Rightarrow> string" where
  "utf8_replace [] = []"
| "utf8_replace (c # cs) =
     (let b = (of_char c :: nat) in
      if b < 0x80 then c # utf8_replace cs
      else if b < 0xC2 \<or> 0xF5 \<le> b then replacement @ utf8_replace cs
      else if b < 0xE0 then
        (case cs of
           [] \<Rightarrow> replacement
         | c2 # r2 \<Rightarrow>
             if \<not> is_cont c2 then replacement @ utf8_replace cs
             else c # c2 # utf8_replace r2)
      else if b < 0xF0 then
        (case cs of
           [] \<Rightarrow> replacement
         | c2 # r2 \<Rightarrow>
             if \<not> second_ok b c2 then replacement @ utf8_replace cs
             else
               (case r2 of
                  [] \<Rightarrow> replacement
                | c3 # r3 \<Rightarrow>
                    if \<not> is_cont c3 then replacement @ utf8_replace r2
                    else c # c2 # c3 # utf8_replace r3))
      else
        (case cs of
           [] \<Rightarrow> replacement
         | c2 # r2 \<Rightarrow>
             if \<not> second_ok b c2 then replacement @ utf8_replace cs
             else
               (case r2 of
                  [] \<Rightarrow> replacement
                | c3 # r3 \<Rightarrow>
                    if \<not> is_cont c3 then replacement @ utf8_replace r2
                    else
                      (case r3 of
                         [] \<Rightarrow> replacement
                       | c4 # r4 \<Rightarrow>
                           if \<not> is_cont c4 then replacement @ utf8_replace r3
                           else c # c2 # c3 # c4 # utf8_replace r4))))"

text \<open>
  \<^verbatim>\<open>unquote\<close>: a string without \<^verbatim>\<open>%\<close> is returned as it is. Otherwise the string is
  cut into runs of ASCII characters and runs of other characters; each ASCII run is
  unquoted to bytes and decoded, the other runs are kept.
\<close>

definition is_ascii :: "char \<Rightarrow> bool" where
  "is_ascii c = ((of_char c :: nat) < 0x80)"

function unquote_runs :: "string \<Rightarrow> string" where
  "unquote_runs [] = []"
| "unquote_runs (c # cs) =
     (if is_ascii c
      then utf8_replace (unquote_to_bytes (takeWhile is_ascii (c # cs)))
             @ unquote_runs (dropWhile is_ascii (c # cs))
      else c # unquote_runs cs)"
  by pat_completeness auto
termination
  by (relation "measure length") (auto simp: less_Suc_eq_le length_dropWhile_le)

definition unquote :: "string \<Rightarrow> string" where
  "unquote s = (if CHR ''%'' \<notin> set s then s else unquote_runs s)"

definition unquote_plus :: "string \<Rightarrow> string" where
  "unquote_plus s = unquote (map (\<lambda>c. if c = CHR ''+'' then CHR '' '' else c) s)"

text \<open>
  Applied to a value that is not a string, \<^verbatim>\<open>unquote_plus\<close> fails at its first step,
  \<^verbatim>\<open>string.replace('+', ' ')\<close>, with \<^verbatim>\<open>AttributeError\<close>.
\<close>

fun py_unquote_plus :: "'c pyval \<Rightarrow> py_error + string" where
  "py_unquote_plus (PStr s) = Inr (unquote_plus s)"
| "py_unquote_plus _ = Inl AttributeError"

section \<open>\<^verbatim>\<open>URLSubmissionMessage\<close>\<close>

text \<open>
  The dataclass stores whatever it is given: no field is checked against its annotation,
  so every field holds a Python value. A content type class is a \<open>PType c\<close>; its
  \<^verbatim>\<open>get_name()\<close> is defined in \<^verbatim>\<open>threatexchange.content_type\<close>, outside this module, and
  is a parameter \<open>get_name\<close> of the model.
\<close>

record 'c URLSubmissionMessage =
  content_type :: "'c pyval"
  content_id :: "'c pyval"
  url :: "'c pyval"
  event_type :: "'c pyval"

text \<open>The constructor called without \<^verbatim>\<open>event_type\<close>: the field takes its default.\<close>

definition URLSubmissionMessage_default ::
  "'c pyval \<Rightarrow> 'c pyval \<Rightarrow> 'c pyval \<Rightarrow> 'c URLSubmissionMessage" where
  "URLSubmissionMessage_default ct cid u =
     \<lparr>content_type = ct, content_id = cid, url = u, event_type = PStr ''URLSubmission''\<rparr>"

text \<open>
  \<^verbatim>\<open>self.content_type.get_name()\<close>: a class answers with its name; any other value has
  no attribute \<^verbatim>\<open>get_name\<close>.
\<close>

fun call_get_name :: "('c \<Rightarrow> string) \<Rightarrow> 'c pyval \<Rightarrow> py_error + 'c pyval" where
  "call_get_name get_name (PType c) = Inr (PStr (get_name c))"
| "call_get_name get_name _ = Inl AttributeError"

definition to_sqs_message ::
  "('c \<Rightarrow> string) \<Rightarrow> 'c URLSubmissionMessage \<Rightarrow> py_error + 'c pydict" where
  "to_sqs_message get_name self =
     (case call_get_name get_name (content_type self) of
        Inl e \<Rightarrow> Inl e
      | Inr name \<Rightarrow>
          Inr [(''ContentType'', name),
               (''ContentId'', content_id self),
               (''URL'', url self),
               (''EventType'', event_type self)])"

definition URLSubmissionMessage_from_sqs_message ::
  "'c pydict \<Rightarrow> py_error + 'c URLSubmissionMessage" where
  "URLSubmissionMessage_from_sqs_message d =
     (case dict_get d ''ContentType'' of Inl e \<Rightarrow> Inl e | Inr ct \<Rightarrow>
     (case dict_get d ''ContentId'' of Inl e \<Rightarrow> Inl e | Inr cid \<Rightarrow>
     (case dict_get d ''URL'' of Inl e \<Rightarrow> Inl e | Inr u \<Rightarrow>
     (case dict_get d ''EventType'' of Inl e \<Rightarrow> Inl e | Inr et \<Rightarrow>
        Inr \<lparr>content_type = ct, content_id = cid, url = u, event_type = et\<rparr>))))"

definition URLSubmissionMessage_could_be :: "'c pydict \<Rightarrow> py_error + bool" where
  "URLSubmissionMessage_could_be d = Inr (key_in ''EventType'' d)"

section \<open>\<^verbatim>\<open>S3ImageSubmission\<close> and \<^verbatim>\<open>S3ImageSubmissionBatchMessage\<close>\<close>

record 'c S3ImageSubmission =
  content_id :: string
  bucket :: "'c pyval"
  key :: string

record 'c S3ImageSubmissionBatchMessage =
  image_submissions :: "'c S3ImageSubmission list"

text \<open>
  Modelled from the spec: \<^verbatim>\<open>S3BucketContentSource.get_content_id_from_s3_key\<close> lives in
  \<^verbatim>\<open>hmalib.common.content_sources\<close>, whose source is not part of this development.
  Section 4.2 of the specification: ``the id is the key with the configured prefix
  removed from its start''. What happens to a key that does not start with the prefix is
  left open there (fail, or keep some id), so that choice is the parameter \<open>mismatch\<close>.
\<close>

definition get_content_id_from_s3_key ::
  "(string \<Rightarrow> string \<Rightarrow> py_error + string) \<Rightarrow> string \<Rightarrow> string \<Rightarrow> py_error + string" where
  "get_content_id_from_s3_key mismatch s3_key image_prefix =
     (if prefix image_prefix s3_key then Inr (drop (length image_prefix) s3_key)
      else mismatch s3_key image_prefix)"

text \<open>
  The body of the loop over \<^verbatim>\<open>d["Records"]\<close>, with \<open>result\<close> the list built so far. An
  exception leaves the loop at once; \<^verbatim>\<open>continue\<close> goes on with the next record and the
  same \<open>result\<close>. The call of \<^verbatim>\<open>logger.info\<close> has no effect on the result. The
  source's \<^verbatim>\<open>key\<close>, \<^verbatim>\<open>content_id\<close> and the size it compares are \<open>k\<close>, \<open>cid\<close> and \<open>sz\<close> here.
\<close>

fun records_loop ::
  "(string \<Rightarrow> string \<Rightarrow> py_error + string) \<Rightarrow> string \<Rightarrow> 'c pyval list \<Rightarrow>
   'c S3ImageSubmission list \<Rightarrow> py_error + 'c S3ImageSubmission list" where
  "records_loop mismatch image_prefix [] result = Inr result"
| "records_loop mismatch image_prefix (s3_record # rest) result =
     (case subscripts s3_record [''s3'', ''bucket'', ''name''] of Inl e \<Rightarrow> Inl e
      | Inr bucket_name \<Rightarrow>
     (case subscripts s3_record [''s3'', ''object'', ''key''] of Inl e \<Rightarrow> Inl e
      | Inr raw_key \<Rightarrow>
     (case py_unquote_plus raw_key of Inl e \<Rightarrow> Inl e
      | Inr k \<Rightarrow>
     (case subscripts s3_record [''s3'', ''object'', ''size''] of Inl e \<Rightarrow> Inl e
      | Inr sz \<Rightarrow>
        if eq_zero sz then records_loop mismatch image_prefix rest result
        else
          (case get_content_id_from_s3_key mismatch k image_prefix of Inl e \<Rightarrow> Inl e
           | Inr cid \<Rightarrow>
               records_loop mismatch image_prefix rest
                 (result @ [\<lparr>content_id = cid, bucket = bucket_name, key = k\<rparr>]))))))"

definition S3ImageSubmissionBatchMessage_from_sqs_message ::
  "(string \<Rightarrow> string \<Rightarrow> py_error + string) \<Rightarrow> 'c pydict \<Rightarrow> string \<Rightarrow>
   py_error + 'c S3ImageSubmissionBatchMessage" where
  "S3ImageSubmissionBatchMessage_from_sqs_message mismatch d image_prefix =
     (case dict_get d ''Records'' of Inl e \<Rightarrow> Inl e | Inr records \<Rightarrow>
     (case py_iter records of Inl e \<Rightarrow> Inl e | Inr rs \<Rightarrow>
     (case records_loop mismatch image_prefix rs [] of Inl e \<Rightarrow> Inl e
      | Inr result \<Rightarrow> Inr \<lparr>image_submissions = result\<rparr>)))"

text \<open>
  \<^verbatim>\<open>"Records" in d and len(d["Records"]) > 0 and "s3" in d["Records"][0]\<close>: each
  conjunct is evaluated only when those before it are true, and \<^verbatim>\<open>d["Records"]\<close> cannot
  fail once \<^verbatim>\<open>"Records" in d\<close> holds.
\<close>

definition S3ImageSubmissionBatchMessage_could_be :: "'c pydict \<Rightarrow> py_error + bool" where
  "S3ImageSubmissionBatchMessage_could_be d =
     (if \<not> key_in ''Records'' d then Inr False
      else
        (case dict_get d ''Records'' of Inl e \<Rightarrow> Inl e | Inr records \<Rightarrow>
        (case py_len records of Inl e \<Rightarrow> Inl e | Inr n \<Rightarrow>
           if \<not> n > 0 then Inr False
           else
             (case getitem0 records of Inl e \<Rightarrow> Inl e | Inr first \<Rightarrow> str_in ''s3'' first))))"

section \<open>Vocabulary of the properties\<close>

text \<open>
  \<^verbatim>\<open>from_sqs_message(m.to_sqs_message())\<close>: a message serialised and read back.
\<close>

definition roundtrip ::
  "('c \<Rightarrow> string) \<Rightarrow> 'c URLSubmissionMessage \<Rightarrow> py_error + 'c URLSubmissionMessage" where
  "roundtrip get_name m =
     (case to_sqs_message get_name m of
        Inl e \<Rightarrow> Inl e
      | Inr d \<Rightarrow> URLSubmissionMessage_from_sqs_message d)"

text \<open>
  The three fields the batch parser reads from a record, as the paths it subscripts, and
  what a record holds there: its bucket name, its raw (still encoded) key, and whether its
  size compares equal to zero.
\<close>

definition bucket_path :: "string list" where
  "bucket_path = [''s3'', ''bucket'', ''name'']"

definition key_path :: "string list" where
  "key_path = [''s3'', ''object'', ''key'']"

definition size_path :: "string list" where
  "size_path = [''s3'', ''object'', ''size'']"


definition record_bucket :: "'c pyval \<Rightarrow> 'c pyval" where
  "record_bucket r = (case subscripts r bucket_path of Inr b \<Rightarrow> b | Inl _ \<Rightarrow> PNone)"

definition record_key :: "'c pyval \<Rightarrow> string" where
  "record_key r = (case subscripts r key_path of Inr (PStr k) \<Rightarrow> k | _ \<Rightarrow> [])"

definition record_empty :: "'c pyval \<Rightarrow> bool" where
  "record_empty r = (case subscripts r size_path of Inr sz \<Rightarrow> eq_zero sz | Inl _ \<Rightarrow> False)"

text \<open>
  The submission a record of non-zero size gives rise to: its decoded key, its bucket,
  and the content id derived from the decoded key.
\<close>

definition derived_id ::
  "(string \<Rightarrow> string \<Rightarrow> py_error + string) \<Rightarrow> string \<Rightarrow> 'c pyval \<Rightarrow> string" where
  "derived_id mismatch image_prefix r =
     (case get_content_id_from_s3_key mismatch (unquote_plus (record_key r)) image_prefix of
        Inr cid \<Rightarrow> cid | Inl _ \<Rightarrow> [])"

definition submission_of ::
  "(string \<Rightarrow> string \<Rightarrow> py_error + string) \<Rightarrow> string \<Rightarrow> 'c pyval \<Rightarrow> 'c S3ImageSubmission" where
  "submission_of mismatch image_prefix r =
     \<lparr>content_id = derived_id mismatch image_prefix r,
      bucket = record_bucket r,
      key = unquote_plus (record_key r)\<rparr>"

text \<open>
  A record follows the naming convention when a content id can be derived from its
  decoded key: the key starts with the prefix, or the mismatch policy yields an id.
\<close>

definition follows_convention ::
  "(string \<Rightarrow> string \<Rightarrow> py_error + string) \<Rightarrow> string \<Rightarrow> 'c pyval \<Rightarrow> bool" where
  "follows_convention mismatch image_prefix r =
     (case get_content_id_from_s3_key mismatch (unquote_plus (record_key r)) image_prefix of
        Inr _ \<Rightarrow> True | Inl _ \<Rightarrow> False)"

text \<open>
  A well-formed record has the wire shape of section 6 of the specification: a bucket
  name and an object key that are strings, and an object size that is a number of bytes.
  Other keys may be present.
\<close>

definition wf_record :: "'c pyval \<Rightarrow> bool" where
  "wf_record r =
     (case subscripts r bucket_path of
        Inr (PStr b) \<Rightarrow>
          (case subscripts r key_path of
             Inr (PStr k) \<Rightarrow>
               (case subscripts r size_path of Inr (PInt n) \<Rightarrow> 0 \<le> n | _ \<Rightarrow> False)
           | _ \<Rightarrow> False)
      | _ \<Rightarrow> False)"

text \<open>
  A field is there when the chain of subscripts reaches it. Its key is absent when the
  chain stops at a mapping that lacks the next key, which is when Python raises
  \<^verbatim>\<open>KeyError\<close>.
\<close>

definition has_field :: "'c pyval \<Rightarrow> string list \<Rightarrow> bool" where
  "has_field r path = (case subscripts r path of Inr _ \<Rightarrow> True | Inl _ \<Rightarrow> False)"


definition key_is_str :: "'c pyval \<Rightarrow> bool" where
  "key_is_str r = (case subscripts r key_path of Inr (PStr _) \<Rightarrow> True | _ \<Rightarrow> False)"





text \<open>
  What the batch discriminator does with the binding of \<^verbatim>\<open>"Records"\<close>: \<open>probe_returns\<close>
  tells the bindings on which it returns a boolean, \<open>probe_true\<close> those on which it
  returns \<^verbatim>\<open>True\<close>. \<open>holds_s3\<close> is Python's \<^verbatim>\<open>"s3" in x\<close> where that is defined.
\<close>

fun is_container :: "'c pyval \<Rightarrow> bool" where
  "is_container (PDict d) = True"
| "is_container (PList xs) = True"
| "is_container (PStr s) = True"
| "is_container _ = False"

fun probe_returns :: "'c pyval option \<Rightarrow> bool" where
  "probe_returns None = True"
| "probe_returns (Some (PList [])) = True"
| "probe_returns (Some (PList (x # xs))) = is_container x"
| "probe_returns (Some (PStr s)) = True"
| "probe_returns (Some (PDict d)) = (d = [])"
| "probe_returns (Some _) = False"

fun holds_s3 :: "'c pyval \<Rightarrow> bool" where
  "holds_s3 (PDict d) = key_in ''s3'' d"
| "holds_s3 (PList xs) = (PStr ''s3'' \<in> set xs)"
| "holds_s3 (PStr s) = sublist ''s3'' s"
| "holds_s3 _ = False"

fun probe_true :: "'c pyval option \<Rightarrow> bool" where
  "probe_true (Some (PList (x # xs))) = holds_s3 x"
| "probe_true _ = False"

text \<open>
  The condition in the words of the specification (sections 4.2 and 8): \<^verbatim>\<open>"Records"\<close> is
  bound to a non-empty sequence whose first element contains the marker key \<^verbatim>\<open>"s3"\<close>,
  that is, is a mapping with that key. \<open>first_is_mapping\<close> holds of a binding unless it is
  a non-empty list whose first element is not a mapping.
\<close>

fun spec_batch_shape :: "'c pyval option \<Rightarrow> bool" where
  "spec_batch_shape (Some (PList (PDict r # xs))) = key_in ''s3'' r"
| "spec_batch_shape _ = False"

fun first_is_mapping :: "'c pyval option \<Rightarrow> bool" where
  "first_is_mapping (Some (PList (PDict r # xs))) = True"
| "first_is_mapping (Some (PList (x # xs))) = False"
| "first_is_mapping _ = True"

text \<open>
  A record of the wire shape with nothing but the three fields, and a mismatch policy
  that fails the batch; both serve as concrete inputs.
\<close>

definition s3_record :: "string \<Rightarrow> string \<Rightarrow> int \<Rightarrow> 'c pyval" where
  "s3_record b k n =
     PDict [(''s3'', PDict [(''bucket'', PDict [(''name'', PStr b)]),
                           (''object'', PDict [(''key'', PStr k), (''size'', PInt n)])])]"

definition fail_batch :: "string \<Rightarrow> string \<Rightarrow> py_error + string" where
  "fail_batch s3_key image_prefix = Inl NamingConventionViolation"

section \<open>Dictionary lookups\<close>


lemma dict_get_present: "key_in k d \<Longrightarrow> \<exists>v. dict_get d k = Inr v \<and> map_of d k = Some v"
  by (auto simp: key_in_def dict_get_def)


lemma url_from_Inr:
  assumes "URLSubmissionMessage_from_sqs_message d = Inr m"
  shows "map_of d ''ContentType'' = Some (content_type m) \<and>
         map_of d ''ContentId'' = Some (URLSubmissionMessage.content_id m) \<and>
         map_of d ''URL'' = Some (url m) \<and>
         map_of d ''EventType'' = Some (event_type m)"
  using assms unfolding URLSubmissionMessage_from_sqs_message_def dict_get_def
  by (auto split: option.splits)

lemma roundtrip_eq:
  "roundtrip gn m =
     (case content_type m of
        PType c \<Rightarrow> Inr (m\<lparr>content_type := PStr (gn c)\<rparr>)
      | _ \<Rightarrow> Inl AttributeError)"
  by (cases m; cases "content_type m")
     (simp_all add: roundtrip_def to_sqs_message_def URLSubmissionMessage_from_sqs_message_def dict_get_def)

section \<open>The loop of the batch parser\<close>

lemma py_unquote_plus_Inr: "py_unquote_plus v = Inr k \<Longrightarrow> \<exists>s. v = PStr s \<and> k = unquote_plus s"
  by (cases v) auto

lemma records_loop_Cons:
  "records_loop mm p (r # rest) acc =
     (case subscripts r bucket_path of Inl e \<Rightarrow> Inl e
      | Inr bucket_name \<Rightarrow>
     (case subscripts r key_path of Inl e \<Rightarrow> Inl e
      | Inr raw_key \<Rightarrow>
     (case py_unquote_plus raw_key of Inl e \<Rightarrow> Inl e
      | Inr k \<Rightarrow>
     (case subscripts r size_path of Inl e \<Rightarrow> Inl e
      | Inr sz \<Rightarrow>
        if eq_zero sz then records_loop mm p rest acc
        else
          (case get_content_id_from_s3_key mm k p of Inl e \<Rightarrow> Inl e
           | Inr cid \<Rightarrow>
               records_loop mm p rest
                 (acc @ [\<lparr>content_id = cid, bucket = bucket_name, key = k\<rparr>]))))))"
  unfolding bucket_path_def key_path_def size_path_def
  by (simp only: records_loop.simps)

lemma has_fieldE:
  assumes "has_field r path"
  obtains v where "subscripts r path = Inr v"
  using assms by (auto simp: has_field_def split: sum.splits)

lemma key_is_strE:
  assumes "key_is_str r"
  obtains k where "subscripts r key_path = Inr (PStr k)"
  using assms by (auto simp: key_is_str_def split: sum.splits pyval.splits)

lemma record_emptyE:
  assumes "record_empty r"
  obtains sz where "subscripts r size_path = Inr sz" "eq_zero sz"
  using assms by (auto simp: record_empty_def split: sum.splits)

lemma follows_conventionE:
  assumes "follows_convention mm p r"
  obtains cid where
    "get_content_id_from_s3_key mm (unquote_plus (record_key r)) p = Inr cid"
  using assms by (auto simp: follows_convention_def split: sum.splits)

lemma records_loop_skip:
  assumes "has_field r bucket_path" "key_is_str r" "record_empty r"
  shows "records_loop mm p (r # rest) acc = records_loop mm p rest acc"
proof -
  from assms(1) obtain b where b: "subscripts r bucket_path = Inr b" by (rule has_fieldE)
  from assms(2) obtain k where k: "subscripts r key_path = Inr (PStr k)" by (rule key_is_strE)
  from assms(3) obtain sz where sz: "subscripts r size_path = Inr sz" "eq_zero sz"
    by (rule record_emptyE)
  show ?thesis unfolding records_loop_Cons by (simp add: b k sz)
qed

lemma records_loop_append:
  assumes "has_field r bucket_path" "key_is_str r" "has_field r size_path" "\<not> record_empty r"
    "follows_convention mm p r"
  shows "records_loop mm p (r # rest) acc = records_loop mm p rest (acc @ [submission_of mm p r])"
proof -
  from assms(1) obtain b where b: "subscripts r bucket_path = Inr b" by (rule has_fieldE)
  from assms(2) obtain k where k: "subscripts r key_path = Inr (PStr k)" by (rule key_is_strE)
  from assms(3) obtain sz where sz: "subscripts r size_path = Inr sz" by (rule has_fieldE)
  from assms(4) sz have nz: "\<not> eq_zero sz" by (simp add: record_empty_def)
  have rk: "record_key r = k" by (simp add: record_key_def k)
  from assms(5) obtain cid where
    cid: "get_content_id_from_s3_key mm (unquote_plus k) p = Inr cid"
    unfolding rk[symmetric] by (rule follows_conventionE)
  have "submission_of mm p r = \<lparr>content_id = cid, bucket = b, key = unquote_plus k\<rparr>"
    by (simp add: submission_of_def derived_id_def record_bucket_def rk b cid)
  then show ?thesis unfolding records_loop_Cons by (simp add: b k sz nz cid)
qed

lemma records_loop_Inr_fields:
  assumes "records_loop mm p (r # rest) acc = Inr res"
  shows "has_field r bucket_path \<and> key_is_str r \<and> has_field r size_path \<and>
         (record_empty r \<or> follows_convention mm p r)"
proof -
  note a = assms[unfolded records_loop_Cons]
  from a obtain b where b: "subscripts r bucket_path = Inr b"
    by (cases "subscripts r bucket_path") auto
  from a b obtain raw where raw: "subscripts r key_path = Inr raw"
    by (cases "subscripts r key_path") auto
  from a b raw obtain k where "py_unquote_plus raw = Inr k"
    by (cases "py_unquote_plus raw") auto
  then obtain s where s: "raw = PStr s" "k = unquote_plus s"
    using py_unquote_plus_Inr by blast
  from a b raw s obtain sz where sz: "subscripts r size_path = Inr sz"
    by (cases "subscripts r size_path") auto
  have rk: "record_key r = s" by (simp add: record_key_def raw s)
  have "record_empty r \<or> follows_convention mm p r"
  proof (cases "eq_zero sz")
    case True
    then show ?thesis by (simp add: record_empty_def sz)
  next
    case False
    with a b raw s sz obtain cid where "get_content_id_from_s3_key mm (unquote_plus s) p = Inr cid"
      by (cases "get_content_id_from_s3_key mm (unquote_plus s) p") auto
    then show ?thesis by (simp add: follows_convention_def rk)
  qed
  then show ?thesis by (simp add: has_field_def key_is_str_def b raw s sz)
qed

lemma records_loop_step:
  assumes "records_loop mm p (r # rest) acc = Inr res"
  shows "records_loop mm p rest (if record_empty r then acc else acc @ [submission_of mm p r]) = Inr res"
proof -
  from records_loop_Inr_fields[OF assms]
  have f: "has_field r bucket_path" "key_is_str r" "has_field r size_path"
    "record_empty r \<or> follows_convention mm p r" by auto
  show ?thesis
  proof (cases "record_empty r")
    case True
    then show ?thesis using assms records_loop_skip[OF f(1) f(2) True] by simp
  next
    case False
    with f(4) have "follows_convention mm p r" by simp
    then show ?thesis using assms False records_loop_append[OF f(1) f(2) f(3) False] by simp
  qed
qed

lemma records_loop_result:
  "records_loop mm p rs acc = Inr res \<Longrightarrow>
     res = acc @ map (submission_of mm p) (filter (\<lambda>r. \<not> record_empty r) rs)"
proof (induction rs arbitrary: acc)
  case Nil
  then show ?case by simp
next
  case (Cons r rest)
  from Cons.IH[OF records_loop_step[OF Cons.prems]] show ?case
    by (cases "record_empty r") simp_all
qed

lemma wf_record_fields:
  "wf_record r \<Longrightarrow> has_field r bucket_path \<and> key_is_str r \<and> has_field r size_path"
  by (auto simp: wf_record_def has_field_def key_is_str_def split: sum.splits pyval.splits)

lemma records_loop_wf:
  assumes "\<forall>r\<in>set rs. wf_record r"
    and "\<forall>r\<in>set rs. \<not> record_empty r \<longrightarrow> follows_convention mm p r"
  shows "records_loop mm p rs acc =
           Inr (acc @ map (submission_of mm p) (filter (\<lambda>r. \<not> record_empty r) rs))"
  using assms
proof (induction rs arbitrary: acc)
  case Nil
  then show ?case by simp
next
  case (Cons r rest)
  then have wf: "has_field r bucket_path" "key_is_str r" "has_field r size_path"
    using wf_record_fields[of r] by auto
  show ?case
  proof (cases "record_empty r")
    case True
    then show ?thesis using Cons records_loop_skip[OF wf(1) wf(2) True] by simp
  next
    case False
    with Cons.prems have "follows_convention mm p r" by simp
    then show ?thesis using Cons False records_loop_append[OF wf False] by simp
  qed
qed












section \<open>The batch discriminator, case by case\<close>

lemma could_be_absent:
  "\<not> key_in ''Records'' d \<Longrightarrow> S3ImageSubmissionBatchMessage_could_be d = Inr False"
  by (simp add: S3ImageSubmissionBatchMessage_could_be_def)

lemma could_be_present:
  assumes "map_of d ''Records'' = Some v"
  shows "S3ImageSubmissionBatchMessage_could_be d =
     (case py_len v of Inl e \<Rightarrow> Inl e | Inr n \<Rightarrow>
        if \<not> n > 0 then Inr False
        else (case getitem0 v of Inl e \<Rightarrow> Inl e | Inr first \<Rightarrow> str_in ''s3'' first))"
  using assms by (simp add: S3ImageSubmissionBatchMessage_could_be_def key_in_def dict_get_def)

lemma first_char_no_s3: "\<not> sublist ''s3'' (first_char s)"
proof (cases s)
  case Nil
  then show ?thesis by (simp add: first_char_def)
next
  case (Cons c cs)
  have 3: "\<not> is_cont CHR ''3''" and s: "\<not> is_cont CHR ''s''" by (simp_all add: is_cont_def)
  have "\<not> prefix ''s3'' (c # takeWhile is_cont cs)"
  proof
    assume "prefix ''s3'' (c # takeWhile is_cont cs)"
    then have "prefix ''3'' (takeWhile is_cont cs)" by simp
    then have "CHR ''3'' \<in> set (takeWhile is_cont cs)" by (auto simp: prefix_def)
    then show False using 3 by (auto dest: set_takeWhileD)
  qed
  moreover have "\<not> sublist ''s3'' (takeWhile is_cont cs)"
  proof
    assume "sublist ''s3'' (takeWhile is_cont cs)"
    then have "set ''s3'' \<subseteq> set (takeWhile is_cont cs)" by (rule set_mono_sublist)
    then show False using s by (auto dest: set_takeWhileD)
  qed
  ultimately show ?thesis by (simp add: Cons first_char_def sublist_Cons_right)
qed

lemma could_be_cases:
  "S3ImageSubmissionBatchMessage_could_be d =
     (case map_of d ''Records'' of
        None \<Rightarrow> Inr False
      | Some (PList []) \<Rightarrow> Inr False
      | Some (PList (x # xs)) \<Rightarrow> str_in ''s3'' x
      | Some (PStr s) \<Rightarrow> Inr False
      | Some (PDict kvs) \<Rightarrow> (if kvs = [] then Inr False else Inl KeyError)
      | Some _ \<Rightarrow> Inl TypeError)"
proof (cases "map_of d ''Records''")
  case None
  then show ?thesis by (simp add: could_be_absent key_in_def)
next
  case (Some v)
  show ?thesis
  proof (cases v)
    case (PStr s)
    then show ?thesis using Some first_char_no_s3[of s]
      by (cases s) (simp_all add: could_be_present)
  next
    case (PList xs)
    then show ?thesis using Some by (cases xs) (simp_all add: could_be_present)
  next
    case (PDict kvs)
    then show ?thesis using Some by (cases kvs) (auto simp: could_be_present)
  qed (simp_all add: Some could_be_present)
qed

lemma str_in_returns: "(\<exists>b. str_in k x = Inr b) = is_container x"
  by (cases x) simp_all

lemma str_in_true: "(str_in ''s3'' x = Inr True) = holds_s3 x"
  by (cases x) simp_all

section \<open>The batch parser on a list of records\<close>

lemma from_sqs_message_list:
  assumes "map_of d ''Records'' = Some (PList rs)"
  shows "S3ImageSubmissionBatchMessage_from_sqs_message mm d p =
     (case records_loop mm p rs [] of Inl e \<Rightarrow> Inl e
      | Inr result \<Rightarrow> Inr \<lparr>image_submissions = result\<rparr>)"
  using assms by (simp add: S3ImageSubmissionBatchMessage_from_sqs_message_def dict_get_def)

lemma from_sqs_message_Inr:
  assumes "map_of d ''Records'' = Some (PList rs)"
    and "S3ImageSubmissionBatchMessage_from_sqs_message mm d p = Inr b"
  shows "records_loop mm p rs [] = Inr (image_submissions b)"
  using assms(2) unfolding from_sqs_message_list[OF assms(1)]
  by (cases "records_loop mm p rs []") auto

lemma records_loop_Inr_all:
  "records_loop mm p rs acc = Inr res \<Longrightarrow> r \<in> set rs \<Longrightarrow>
     has_field r bucket_path \<and> key_is_str r \<and> has_field r size_path \<and>
     (record_empty r \<or> follows_convention mm p r)"
proof (induction rs arbitrary: acc)
  case Nil
  then show ?case by simp
next
  case (Cons x xs)
  show ?case
  proof (cases "r = x")
    case True
    then show ?thesis using records_loop_Inr_fields[OF Cons.prems(1)] by simp
  next
    case False
    with Cons.prems(2) have "r \<in> set xs" by simp
    from Cons.IH[OF records_loop_step[OF Cons.prems(1)] this] show ?thesis .
  qed
qed

section \<open>Facts about the concrete record\<close>

lemma s3_record_fields:
  "subscripts (s3_record b k n) bucket_path = Inr (PStr b)"
  "subscripts (s3_record b k n) key_path = Inr (PStr k)"
  "subscripts (s3_record b k n) size_path = Inr (PInt n)"
  by (simp_all add: s3_record_def bucket_path_def key_path_def size_path_def dict_get_def)

lemma s3_record_wf: "0 \<le> n \<Longrightarrow> wf_record (s3_record b k n)"
  by (simp add: wf_record_def s3_record_fields)

lemma s3_record_empty: "record_empty (s3_record b k n) = (n = 0)"
  by (simp add: record_empty_def s3_record_fields)

lemma s3_record_key: "record_key (s3_record b k n) = k"
  by (simp add: record_key_def s3_record_fields)

lemma s3_record_bucket: "record_bucket (s3_record b k n) = PStr b"
  by (simp add: record_bucket_def s3_record_fields)

section \<open>When the batch discriminator answers true\<close>

lemma could_be_true_iff:
  "(S3ImageSubmissionBatchMessage_could_be d = Inr True) = probe_true (map_of d ''Records'')"
  unfolding could_be_cases
  by (auto simp: str_in_true split: option.splits pyval.splits list.splits)

lemma probe_true_spec: "first_is_mapping v \<Longrightarrow> probe_true v = spec_batch_shape v"
  by (induction v rule: first_is_mapping.induct) simp_all

section \<open>Round trip of a URL submission\<close>

text \<open>
  Claim C1 says that \<^verbatim>\<open>from_sqs_message(m.to_sqs_message()) == m\<close> for every well-formed
  message \<open>m\<close>, whose \<^verbatim>\<open>content_type\<close> is a content type class. The code does not do that:
  \<^verbatim>\<open>to_sqs_message\<close> writes the name of the class, and \<^verbatim>\<open>from_sqs_message\<close> stores that
  name, a string, in the field that is declared to hold the class. For the class
  \<^verbatim>\<open>PhotoContent\<close>, named \<^verbatim>\<open>photo\<close>, the message read back carries the string and differs
  from the message that was sent.
\<close>

theorem roundtrip_content_type_not_restored:
  "roundtrip (\<lambda>c. ''photo'')
     (URLSubmissionMessage_default (PType ''PhotoContent'') (PStr ''id1'')
        (PStr ''https://example.com/a.jpg''))
   = Inr \<lparr>content_type = PStr ''photo'', content_id = PStr ''id1'',
          url = PStr ''https://example.com/a.jpg'', event_type = PStr ''URLSubmission''\<rparr>
   \<and> roundtrip (\<lambda>c. ''photo'')
     (URLSubmissionMessage_default (PType ''PhotoContent'') (PStr ''id1'')
        (PStr ''https://example.com/a.jpg''))
   \<noteq> Inr (URLSubmissionMessage_default (PType ''PhotoContent'') (PStr ''id1'')
        (PStr ''https://example.com/a.jpg''))"
  by (simp add: roundtrip_eq URLSubmissionMessage_default_def)

section \<open>Missing fields\<close>




section \<open>The event type of a URL submission\<close>

text \<open>
  Claim C3 says that every message has \<^verbatim>\<open>event_type\<close> equal to \<^verbatim>\<open>"URLSubmission"\<close>, also when
  \<^verbatim>\<open>from_sqs_message\<close> builds it from a raw mapping. A raw mapping with another value
  under \<^verbatim>\<open>"EventType"\<close> yields a message with that other value.
\<close>

theorem event_type_not_reserved:
  "URLSubmissionMessage_from_sqs_message
     [(''ContentType'', PStr ''photo''), (''ContentId'', PStr ''id1''),
      (''URL'', PStr ''https://example.com/a.jpg''), (''EventType'', PStr ''S3Upload'')]
   = Inr \<lparr>content_type = PStr ''photo'', content_id = PStr ''id1'',
          url = PStr ''https://example.com/a.jpg'',
          event_type = (PStr ''S3Upload'' :: unit pyval)\<rparr> \<and>
   event_type \<lparr>content_type = PStr ''photo'', content_id = PStr ''id1'',
          url = PStr ''https://example.com/a.jpg'',
          event_type = (PStr ''S3Upload'' :: unit pyval)\<rparr> \<noteq> PStr ''URLSubmission''"
  by (simp add: URLSubmissionMessage_from_sqs_message_def dict_get_def)

text \<open>
  Claim C3, amended: a message constructed with the default has \<^verbatim>\<open>event_type\<close> equal to
  \<^verbatim>\<open>"URLSubmission"\<close>; \<^verbatim>\<open>from_sqs_message\<close> stores the value the raw mapping binds to
  \<^verbatim>\<open>"EventType"\<close> unchanged; so a message with the default that is serialised and read
  back has the reserved tag again.
\<close>

theorem event_type_carried:
  "event_type (URLSubmissionMessage_default ct cid u) = PStr ''URLSubmission'' \<and>
   (URLSubmissionMessage_from_sqs_message d = Inr m
      \<longrightarrow> map_of d ''EventType'' = Some (event_type m)) \<and>
   (\<exists>m'. roundtrip get_name (URLSubmissionMessage_default (PType c) cid u) = Inr m' \<and>
         event_type m' = PStr ''URLSubmission'')"
  using url_from_Inr[of d m]
  by (simp add: roundtrip_eq URLSubmissionMessage_default_def)

theorem event_type_carried_witness:
  "URLSubmissionMessage_from_sqs_message
     [(''ContentType'', PStr ''photo''), (''ContentId'', PStr ''id1''),
      (''URL'', PStr ''https://example.com/a.jpg''), (''EventType'', PStr ''URLSubmission'')]
   = Inr \<lparr>content_type = PStr ''photo'', content_id = PStr ''id1'',
          url = PStr ''https://example.com/a.jpg'',
          event_type = (PStr ''URLSubmission'' :: unit pyval)\<rparr> \<and>
   map_of [(''ContentType'', PStr ''photo''), (''ContentId'', PStr ''id1''),
      (''URL'', PStr ''https://example.com/a.jpg''), (''EventType'', PStr ''URLSubmission'')]
     ''EventType''
   = Some (event_type \<lparr>content_type = PStr ''photo'', content_id = PStr ''id1'',
          url = PStr ''https://example.com/a.jpg'',
          event_type = (PStr ''URLSubmission'' :: unit pyval)\<rparr>)"
proof -
  let ?d = "[(''ContentType'', PStr ''photo''), (''ContentId'', PStr ''id1''),
      (''URL'', PStr ''https://example.com/a.jpg''), (''EventType'', PStr ''URLSubmission'' :: unit pyval)]"
  let ?m = "\<lparr>content_type = PStr ''photo'', content_id = PStr ''id1'',
          url = PStr ''https://example.com/a.jpg'',
          event_type = (PStr ''URLSubmission'' :: unit pyval)\<rparr>"
  have h: "URLSubmissionMessage_from_sqs_message ?d = Inr ?m"
    by (simp add: URLSubmissionMessage_from_sqs_message_def dict_get_def)
  from event_type_carried[of PNone PNone PNone ?d ?m "\<lambda>c. []" "()"] h show ?thesis by blast
qed

section \<open>The discriminators\<close>

text \<open>
  Claim C4 says that neither \<^verbatim>\<open>could_be\<close> ever raises. The batch discriminator raises
  \<^verbatim>\<open>TypeError\<close> when \<^verbatim>\<open>"Records"\<close> is bound to a number (it has no length), and when the
  first element of the list is a number (it cannot be searched).
\<close>

theorem could_be_raises:
  "S3ImageSubmissionBatchMessage_could_be [(''Records'', PInt 5 :: unit pyval)] = Inl TypeError \<and>
   S3ImageSubmissionBatchMessage_could_be [(''Records'', PList [PInt 5 :: unit pyval])]
     = Inl TypeError"
  by (simp add: S3ImageSubmissionBatchMessage_could_be_def key_in_def dict_get_def)

text \<open>
  Claim C4, amended: \<^verbatim>\<open>URLSubmissionMessage.could_be\<close> returns a boolean on every raw
  mapping. \<^verbatim>\<open>S3ImageSubmissionBatchMessage.could_be\<close> returns a boolean exactly when
  \<^verbatim>\<open>"Records"\<close> is absent, or is bound to a string, to an empty list or mapping, or to a
  list whose first element is a mapping, a list or a string; it returns \<^verbatim>\<open>False\<close> when
  \<^verbatim>\<open>"Records"\<close> is absent or empty.
\<close>

theorem could_be_totality:
  "(\<exists>b. URLSubmissionMessage_could_be d = Inr b) \<and>
   ((\<exists>b. S3ImageSubmissionBatchMessage_could_be d = Inr b)
      = probe_returns (map_of d ''Records'')) \<and>
   (map_of d ''Records'' \<in> {None, Some (PList []), Some (PStr []), Some (PDict [])}
      \<longrightarrow> S3ImageSubmissionBatchMessage_could_be d = Inr False)"
  unfolding could_be_cases
  by (auto simp: URLSubmissionMessage_could_be_def str_in_returns
      split: option.splits pyval.splits list.splits)

theorem could_be_totality_witness:
  "map_of [(''Records'', PList [] :: unit pyval)] ''Records''
     \<in> {None, Some (PList []), Some (PStr []), Some (PDict [])} \<and>
   S3ImageSubmissionBatchMessage_could_be [(''Records'', PList [] :: unit pyval)] = Inr False"
  using could_be_totality[of "[(''Records'', PList [] :: unit pyval)]"] by simp

text \<open>
  Claim C5 says that the two discriminators are never both true. They are on a mapping
  that has both \<^verbatim>\<open>"EventType"\<close> and a \<^verbatim>\<open>"Records"\<close> list whose first element has \<^verbatim>\<open>"s3"\<close>.
\<close>

theorem could_be_both_true:
  "URLSubmissionMessage_could_be
     [(''EventType'', PStr ''URLSubmission''),
      (''Records'', PList [PDict [(''s3'', PDict [] :: unit pyval)]])] = Inr True \<and>
   S3ImageSubmissionBatchMessage_could_be
     [(''EventType'', PStr ''URLSubmission''),
      (''Records'', PList [PDict [(''s3'', PDict [] :: unit pyval)]])] = Inr True"
  by (simp add: URLSubmissionMessage_could_be_def S3ImageSubmissionBatchMessage_could_be_def
      key_in_def dict_get_def)

text \<open>
  Claim C5, amended: the two discriminators are both true if and only if the raw mapping
  has the key \<^verbatim>\<open>"EventType"\<close> and binds \<^verbatim>\<open>"Records"\<close> to a non-empty list whose first element
  is a mapping with the key \<^verbatim>\<open>"s3"\<close>, a list with the element \<^verbatim>\<open>"s3"\<close>, or a string with
  the substring \<^verbatim>\<open>"s3"\<close>. On every other raw mapping they are never both true.
\<close>

theorem could_be_exclusive:
  "(URLSubmissionMessage_could_be d = Inr True \<and>
    S3ImageSubmissionBatchMessage_could_be d = Inr True)
   = (key_in ''EventType'' d \<and> probe_true (map_of d ''Records''))"
  by (simp add: could_be_true_iff URLSubmissionMessage_could_be_def)

text \<open>
  A mapping with both keys on which only one discriminator is true: its list of records
  is empty.
\<close>

theorem could_be_exclusive_witness:
  "key_in ''EventType'' [(''EventType'', PStr ''URLSubmission''), (''Records'', PList [] :: unit pyval)] \<and>
   \<not> probe_true
       (map_of [(''EventType'', PStr ''URLSubmission''), (''Records'', PList [] :: unit pyval)]
          ''Records'') \<and>
   \<not> (URLSubmissionMessage_could_be
         [(''EventType'', PStr ''URLSubmission''), (''Records'', PList [] :: unit pyval)] = Inr True \<and>
      S3ImageSubmissionBatchMessage_could_be
         [(''EventType'', PStr ''URLSubmission''), (''Records'', PList [] :: unit pyval)] = Inr True)"
  using could_be_exclusive
    [of "[(''EventType'', PStr ''URLSubmission''), (''Records'', PList [] :: unit pyval)]"]
  by (simp add: key_in_def)

text \<open>
  Claim C6 says that the batch discriminator is true if and only if \<^verbatim>\<open>"Records"\<close> is a
  non-empty sequence whose first element contains the key \<^verbatim>\<open>"s3"\<close>. It is also true when
  the first element is the string \<^verbatim>\<open>"s3"\<close>, which has no keys: \<^verbatim>\<open>in\<close> is then a substring
  test.
\<close>

theorem could_be_true_without_mapping:
  "S3ImageSubmissionBatchMessage_could_be [(''Records'', PList [PStr ''s3'' :: unit pyval])]
     = Inr True \<and>
   \<not> spec_batch_shape (map_of [(''Records'', PList [PStr ''s3'' :: unit pyval])] ''Records'')"
  by (simp add: S3ImageSubmissionBatchMessage_could_be_def key_in_def dict_get_def)

text \<open>
  Claim C6, amended: the batch discriminator returns \<^verbatim>\<open>True\<close> if and only if \<^verbatim>\<open>"Records"\<close>
  is bound to a non-empty list whose first element is a mapping with the key \<^verbatim>\<open>"s3"\<close>, a
  list with the element \<^verbatim>\<open>"s3"\<close>, or a string with the substring \<^verbatim>\<open>"s3"\<close>. Whenever the
  first element of the list, if there is one, is a mapping, this is the condition of the
  specification.
\<close>

theorem could_be_soundness:
  "((S3ImageSubmissionBatchMessage_could_be d = Inr True) = probe_true (map_of d ''Records'')) \<and>
   (first_is_mapping (map_of d ''Records'')
      \<longrightarrow> (S3ImageSubmissionBatchMessage_could_be d = Inr True)
            = spec_batch_shape (map_of d ''Records''))"
  by (simp add: could_be_true_iff probe_true_spec)

theorem could_be_soundness_witness:
  "first_is_mapping (map_of [(''Records'', PList [PDict [(''s3'', PDict [] :: unit pyval)]])] ''Records'') \<and>
   S3ImageSubmissionBatchMessage_could_be
     [(''Records'', PList [PDict [(''s3'', PDict [] :: unit pyval)]])] = Inr True \<and>
   spec_batch_shape (map_of [(''Records'', PList [PDict [(''s3'', PDict [] :: unit pyval)]])] ''Records'')"
  using could_be_soundness[of "[(''Records'', PList [PDict [(''s3'', PDict [] :: unit pyval)]])]"]
  by (simp add: key_in_def)

section \<open>Parsing a batch notification\<close>

text \<open>
  Claim C7: for a well-formed notification whose records follow the naming convention,
  \<^verbatim>\<open>from_sqs_message\<close> returns a batch; its submissions are those of the records whose size
  is not zero, one for each and in the order of the records, so there are \<open>N - M\<close> of them
  when \<open>M\<close> of the \<open>N\<close> records have size zero.
\<close>

theorem empty_object_filtering:
  assumes "map_of d ''Records'' = Some (PList rs)"
    and "\<forall>r\<in>set rs. wf_record r"
    and "\<forall>r\<in>set rs. \<not> record_empty r \<longrightarrow> follows_convention mm p r"
  shows "\<exists>b. S3ImageSubmissionBatchMessage_from_sqs_message mm d p = Inr b \<and>
             image_submissions b =
               map (submission_of mm p) (filter (\<lambda>r. \<not> record_empty r) rs) \<and>
             length (image_submissions b) = length rs - length (filter record_empty rs)"
proof -
  have "length (filter (\<lambda>r. \<not> record_empty r) rs) = length rs - length (filter record_empty rs)"
    using sum_length_filter_compl[of record_empty rs] by simp
  then show ?thesis
    by (simp add: from_sqs_message_list[OF assms(1)] records_loop_wf[OF assms(2,3)])
qed

text \<open>
  The theorem at the scenario of section 8 of the specification: two records, the first
  of size zero.
\<close>

theorem empty_object_filtering_witness:
  "(map_of [(''Records'',
            PList [s3_record ''b'' ''img%2Fsubmissions/a.jpg'' 0,
                   s3_record ''b'' ''img/submissions/b.jpg'' 1024 :: unit pyval])] ''Records''
      = Some (PList [s3_record ''b'' ''img%2Fsubmissions/a.jpg'' 0,
                     s3_record ''b'' ''img/submissions/b.jpg'' 1024]) \<and>
    wf_record (s3_record ''b'' ''img%2Fsubmissions/a.jpg'' 0 :: unit pyval) \<and>
    wf_record (s3_record ''b'' ''img/submissions/b.jpg'' 1024 :: unit pyval) \<and>
    record_empty (s3_record ''b'' ''img%2Fsubmissions/a.jpg'' 0 :: unit pyval) \<and>
    follows_convention fail_batch ''img/submissions/''
      (s3_record ''b'' ''img/submissions/b.jpg'' 1024 :: unit pyval)) \<and>
   (\<exists>b. S3ImageSubmissionBatchMessage_from_sqs_message fail_batch
          [(''Records'',
            PList [s3_record ''b'' ''img%2Fsubmissions/a.jpg'' 0,
                   s3_record ''b'' ''img/submissions/b.jpg'' 1024 :: unit pyval])]
          ''img/submissions/'' = Inr b \<and>
        image_submissions b =
          [\<lparr>content_id = ''b.jpg'', bucket = PStr ''b'', key = ''img/submissions/b.jpg''\<rparr>] \<and>
        length (image_submissions b) = 2 - 1)"
proof -
  let ?rs = "[s3_record ''b'' ''img%2Fsubmissions/a.jpg'' 0,
              s3_record ''b'' ''img/submissions/b.jpg'' 1024 :: unit pyval]"
  let ?d = "[(''Records'', PList ?rs)]"
  have u: "unquote_plus ''img/submissions/b.jpg'' = ''img/submissions/b.jpg''"
    by (simp add: unquote_plus_def unquote_def)
  have h1: "map_of ?d ''Records'' = Some (PList ?rs)" by simp
  have h2: "\<forall>r\<in>set ?rs. wf_record r" by (simp add: s3_record_wf)
  have h3: "\<forall>r\<in>set ?rs. \<not> record_empty r \<longrightarrow> follows_convention fail_batch ''img/submissions/'' r"
    by (simp add: s3_record_empty follows_convention_def s3_record_key u
        get_content_id_from_s3_key_def)
  have s: "map (submission_of fail_batch ''img/submissions/'') (filter (\<lambda>r. \<not> record_empty r) ?rs)
      = [\<lparr>content_id = ''b.jpg'', bucket = PStr ''b'', key = ''img/submissions/b.jpg''\<rparr>]"
    by (simp add: s3_record_empty submission_of_def derived_id_def s3_record_key s3_record_bucket u
        get_content_id_from_s3_key_def)
  have l: "length ?rs - length (filter record_empty ?rs) = 2 - 1"
    by (simp add: s3_record_empty)
  have g: "wf_record (s3_record ''b'' ''img%2Fsubmissions/a.jpg'' 0 :: unit pyval)"
    "wf_record (s3_record ''b'' ''img/submissions/b.jpg'' 1024 :: unit pyval)"
    "record_empty (s3_record ''b'' ''img%2Fsubmissions/a.jpg'' 0 :: unit pyval)"
    "follows_convention fail_batch ''img/submissions/''
       (s3_record ''b'' ''img/submissions/b.jpg'' 1024 :: unit pyval)"
    using h2 h3 by (simp_all add: s3_record_empty)
  from empty_object_filtering[OF h1 h2 h3] h1 g show ?thesis
    unfolding s l by blast
qed

text \<open>
  Claim C8: whenever \<^verbatim>\<open>from_sqs_message\<close> returns a batch, the object key of every record
  is a string, the \<^verbatim>\<open>key\<close> of each submission is that string decoded by
  \<^verbatim>\<open>unquote_plus\<close>, and the content id is derived from the decoded key. The key
  \<^verbatim>\<open>folder+name/file%20one.jpg\<close> decodes to \<^verbatim>\<open>folder name/file one.jpg\<close>.
\<close>

theorem key_decoding:
  "(map_of d ''Records'' = Some (PList rs) \<and>
    S3ImageSubmissionBatchMessage_from_sqs_message mm d p = Inr b
      \<longrightarrow> (\<forall>r\<in>set rs. subscripts r key_path = Inr (PStr (record_key r))) \<and>
          map key (image_submissions b) =
            map (\<lambda>r. unquote_plus (record_key r)) (filter (\<lambda>r. \<not> record_empty r) rs) \<and>
          (\<forall>s\<in>set (image_submissions b).
             get_content_id_from_s3_key mm (key s) p = Inr (S3ImageSubmission.content_id s))) \<and>
   unquote_plus ''folder+name/file%20one.jpg'' = ''folder name/file one.jpg''"
proof (intro conjI impI)
  assume a: "map_of d ''Records'' = Some (PList rs) \<and>
    S3ImageSubmissionBatchMessage_from_sqs_message mm d p = Inr b"
  then have loop: "records_loop mm p rs [] = Inr (image_submissions b)"
    using from_sqs_message_Inr by blast
  have res: "image_submissions b = map (submission_of mm p) (filter (\<lambda>r. \<not> record_empty r) rs)"
    using records_loop_result[OF loop] by simp
  show "\<forall>r\<in>set rs. subscripts r key_path = Inr (PStr (record_key r))"
  proof
    fix r assume "r \<in> set rs"
    then have "key_is_str r" using records_loop_Inr_all[OF loop] by blast
    then obtain k where "subscripts r key_path = Inr (PStr k)" by (rule key_is_strE)
    then show "subscripts r key_path = Inr (PStr (record_key r))" by (simp add: record_key_def)
  qed
  show "map key (image_submissions b) =
      map (\<lambda>r. unquote_plus (record_key r)) (filter (\<lambda>r. \<not> record_empty r) rs)"
    by (simp add: res submission_of_def o_def)
  show "\<forall>s\<in>set (image_submissions b).
      get_content_id_from_s3_key mm (key s) p = Inr (S3ImageSubmission.content_id s)"
  proof
    fix s assume "s \<in> set (image_submissions b)"
    then obtain r where r: "r \<in> set rs" "\<not> record_empty r" "s = submission_of mm p r"
      unfolding res by auto
    then have "follows_convention mm p r" using records_loop_Inr_all[OF loop] by blast
    then obtain cid where
      "get_content_id_from_s3_key mm (unquote_plus (record_key r)) p = Inr cid"
      by (rule follows_conventionE)
    then show "get_content_id_from_s3_key mm (key s) p = Inr (S3ImageSubmission.content_id s)"
      by (simp add: r(3) submission_of_def derived_id_def)
  qed
next
  show "unquote_plus ''folder+name/file%20one.jpg'' = ''folder name/file one.jpg''"
    by code_simp
qed

theorem key_decoding_witness:
  "(map_of [(''Records'', PList [s3_record ''b'' ''folder+name/file%20one.jpg'' 7 :: unit pyval])]
      ''Records''
      = Some (PList [s3_record ''b'' ''folder+name/file%20one.jpg'' 7]) \<and>
    S3ImageSubmissionBatchMessage_from_sqs_message fail_batch
      [(''Records'', PList [s3_record ''b'' ''folder+name/file%20one.jpg'' 7 :: unit pyval])]
      ''folder name/''
      = Inr \<lparr>image_submissions =
               [\<lparr>content_id = ''file one.jpg'', bucket = PStr ''b'',
                 key = ''folder name/file one.jpg''\<rparr>]\<rparr>) \<and>
   map key [\<lparr>content_id = ''file one.jpg'', bucket = PStr ''b'' :: unit pyval,
             key = ''folder name/file one.jpg''\<rparr>]
     = map (\<lambda>r. unquote_plus (record_key r))
         (filter (\<lambda>r. \<not> record_empty r)
            [s3_record ''b'' ''folder+name/file%20one.jpg'' 7 :: unit pyval]) \<and>
   get_content_id_from_s3_key fail_batch ''folder name/file one.jpg'' ''folder name/''
     = Inr ''file one.jpg''"
proof -
  let ?rs = "[s3_record ''b'' ''folder+name/file%20one.jpg'' 7 :: unit pyval]"
  let ?d = "[(''Records'', PList ?rs)]"
  let ?b = "\<lparr>image_submissions =
               [\<lparr>content_id = ''file one.jpg'', bucket = PStr ''b'' :: unit pyval,
                 key = ''folder name/file one.jpg''\<rparr>]\<rparr>"
  have u: "unquote_plus ''folder+name/file%20one.jpg'' = ''folder name/file one.jpg''"
    by code_simp
  have h1: "map_of ?d ''Records'' = Some (PList ?rs)" by simp
  have h2: "S3ImageSubmissionBatchMessage_from_sqs_message fail_batch ?d ''folder name/'' = Inr ?b"
    by (simp add: S3ImageSubmissionBatchMessage_from_sqs_message_def dict_get_def s3_record_def
        u get_content_id_from_s3_key_def)
  from key_decoding[of ?d ?rs fail_batch "''folder name/''" ?b] h1 h2 show ?thesis
    by simp
qed

text \<open>
  Claim C9: whenever \<^verbatim>\<open>from_sqs_message\<close> returns a batch, the submission of every record
  of non-zero size whose decoded key starts with the prefix has as content id the decoded
  key without that prefix. The prefix \<^verbatim>\<open>submissions/\<close> and the key
  \<^verbatim>\<open>submissions/abc123.jpg\<close> give the content id \<^verbatim>\<open>abc123.jpg\<close>.
\<close>

theorem content_id_derivation:
  "(map_of d ''Records'' = Some (PList rs) \<and>
    S3ImageSubmissionBatchMessage_from_sqs_message mm d p = Inr b
      \<longrightarrow> image_submissions b =
            map (submission_of mm p) (filter (\<lambda>r. \<not> record_empty r) rs) \<and>
          (\<forall>r\<in>set rs. \<not> record_empty r \<and> prefix p (unquote_plus (record_key r))
             \<longrightarrow> S3ImageSubmission.content_id (submission_of mm p r)
                   = drop (length p) (unquote_plus (record_key r)) \<and>
                 p @ S3ImageSubmission.content_id (submission_of mm p r)
                   = key (submission_of mm p r))) \<and>
   get_content_id_from_s3_key mm ''submissions/abc123.jpg'' ''submissions/'' = Inr ''abc123.jpg''"
proof (intro conjI impI)
  assume a: "map_of d ''Records'' = Some (PList rs) \<and>
    S3ImageSubmissionBatchMessage_from_sqs_message mm d p = Inr b"
  then have loop: "records_loop mm p rs [] = Inr (image_submissions b)"
    using from_sqs_message_Inr by blast
  show "image_submissions b = map (submission_of mm p) (filter (\<lambda>r. \<not> record_empty r) rs)"
    using records_loop_result[OF loop] by simp
  show "\<forall>r\<in>set rs. \<not> record_empty r \<and> prefix p (unquote_plus (record_key r))
     \<longrightarrow> S3ImageSubmission.content_id (submission_of mm p r)
           = drop (length p) (unquote_plus (record_key r)) \<and>
         p @ S3ImageSubmission.content_id (submission_of mm p r) = key (submission_of mm p r)"
    by (auto simp: submission_of_def derived_id_def get_content_id_from_s3_key_def prefix_def)
next
  show "get_content_id_from_s3_key mm ''submissions/abc123.jpg'' ''submissions/'' = Inr ''abc123.jpg''"
    by (simp add: get_content_id_from_s3_key_def)
qed

theorem content_id_derivation_witness:
  "(map_of [(''Records'', PList [s3_record ''b'' ''submissions/abc123.jpg'' 1024 :: unit pyval])]
      ''Records''
      = Some (PList [s3_record ''b'' ''submissions/abc123.jpg'' 1024]) \<and>
    S3ImageSubmissionBatchMessage_from_sqs_message fail_batch
      [(''Records'', PList [s3_record ''b'' ''submissions/abc123.jpg'' 1024 :: unit pyval])]
      ''submissions/''
      = Inr \<lparr>image_submissions =
               [\<lparr>content_id = ''abc123.jpg'', bucket = PStr ''b'',
                 key = ''submissions/abc123.jpg''\<rparr>]\<rparr>) \<and>
   (s3_record ''b'' ''submissions/abc123.jpg'' 1024 :: unit pyval)
      \<in> set [s3_record ''b'' ''submissions/abc123.jpg'' 1024] \<and>
   \<not> record_empty (s3_record ''b'' ''submissions/abc123.jpg'' 1024 :: unit pyval) \<and>
   prefix ''submissions/''
     (unquote_plus (record_key (s3_record ''b'' ''submissions/abc123.jpg'' 1024 :: unit pyval))) \<and>
   S3ImageSubmission.content_id
     (submission_of fail_batch ''submissions/''
        (s3_record ''b'' ''submissions/abc123.jpg'' 1024 :: unit pyval))
     = drop (length ''submissions/'')
         (unquote_plus (record_key (s3_record ''b'' ''submissions/abc123.jpg'' 1024 :: unit pyval))) \<and>
   S3ImageSubmission.content_id
     (submission_of fail_batch ''submissions/''
        (s3_record ''b'' ''submissions/abc123.jpg'' 1024 :: unit pyval)) = ''abc123.jpg''"
proof -
  let ?r = "s3_record ''b'' ''submissions/abc123.jpg'' 1024 :: unit pyval"
  let ?d = "[(''Records'', PList [?r])]"
  let ?b = "\<lparr>image_submissions =
               [\<lparr>content_id = ''abc123.jpg'', bucket = PStr ''b'' :: unit pyval,
                 key = ''submissions/abc123.jpg''\<rparr>]\<rparr>"
  have u: "unquote_plus ''submissions/abc123.jpg'' = ''submissions/abc123.jpg''"
    by (simp add: unquote_plus_def unquote_def)
  have h1: "map_of ?d ''Records'' = Some (PList [?r])" by simp
  have h2: "S3ImageSubmissionBatchMessage_from_sqs_message fail_batch ?d ''submissions/'' = Inr ?b"
    by (simp add: S3ImageSubmissionBatchMessage_from_sqs_message_def dict_get_def s3_record_def
        u get_content_id_from_s3_key_def)
  have h3: "?r \<in> set [?r]" by simp
  have h4: "\<not> record_empty ?r" by (simp add: s3_record_empty)
  have h5: "prefix ''submissions/'' (unquote_plus (record_key ?r))"
    by (simp add: s3_record_key u)
  have e: "drop (length ''submissions/'') (unquote_plus (record_key ?r)) = ''abc123.jpg''"
    by (simp add: s3_record_key u)
  from content_id_derivation[of ?d "[?r]" fail_batch "''submissions/''" ?b] h1 h2 h3 h4 h5 e
  show ?thesis by simp
qed

text \<open>
  Claim C10: there is a raw mapping on which the batch discriminator returns \<^verbatim>\<open>True\<close> and
  the batch parser fails, whatever the prefix: a single record whose \<^verbatim>\<open>"s3"\<close> entry is an
  empty mapping.
\<close>

theorem could_be_not_parseable:
  "\<exists>d :: 'c pydict. S3ImageSubmissionBatchMessage_could_be d = Inr True \<and>
     (\<forall>mm p. S3ImageSubmissionBatchMessage_from_sqs_message mm d p = Inl KeyError)"
proof (intro exI conjI allI)
  show "S3ImageSubmissionBatchMessage_could_be [(''Records'', PList [PDict [(''s3'', PDict [])]])]
          = (Inr True :: py_error + bool)"
    by (simp add: could_be_cases key_in_def)
  show "S3ImageSubmissionBatchMessage_from_sqs_message mm
          [(''Records'', PList [PDict [(''s3'', PDict [])]])] p = Inl KeyError" for mm p
    by (simp add: S3ImageSubmissionBatchMessage_from_sqs_message_def dict_get_def)
qed

end
